theory Spec2Isabelle
  imports Main "HOL-Library.Sublist"
begin

section \<open>Strings, lines and the primitives of the patch engine\<close>

text \<open>
  The patch engine works on JavaScript strings. A string is modelled as a \<^typ>\<open>string\<close>,
  one \<^typ>\<open>char\<close> per code unit; the model covers the code units below 256. The white
  space that \<^verbatim>\<open>String.prototype.trim\<close> removes is, in that range, TAB, LF, VT, FF, CR,
  SPACE and NBSP. Errors thrown by the source are values of \<open>patch_error\<close>, and a function
  that may throw returns \<open>patch_error + 'a\<close>.
\<close>

datatype patch_error =
    UnexpectedPath string
  | InvalidHunkHeader string
  | HunkExceeds
  | ContextMismatch string string
  | DeletionMismatch string string
  | UnsupportedLine string

definition LF :: char where
  "LF = CHR 0x0A"

definition CR :: char where
  "CR = CHR 0x0D"

definition TAB :: char where
  "TAB = CHR 0x09"

definition BACKSLASH :: char where
  "BACKSLASH = CHR 0x5C"

definition is_ws :: "char \<Rightarrow> bool" where
  "is_ws c = (c \<in> set [CHR 0x09, CHR 0x0A, CHR 0x0B, CHR 0x0C, CHR 0x0D, CHR 0x20, CHR 0xA0])"

text \<open>\<^verbatim>\<open>s.trim()\<close>\<close>

definition trim :: "string \<Rightarrow> string" where
  "trim s = rev (dropWhile is_ws (rev (dropWhile is_ws s)))"

text \<open>\<^verbatim>\<open>s.split(sep)\<close> for a one-character separator: the result is never empty.\<close>

fun split_on :: "char \<Rightarrow> string \<Rightarrow> string list" where
  "split_on sep [] = [[]]"
| "split_on sep (c # cs) =
     (if c = sep then [] # split_on sep cs
      else (case split_on sep cs of
              [] \<Rightarrow> [[c]]
            | l # ls \<Rightarrow> (c # l) # ls))"

text \<open>\<^verbatim>\<open>lines.join("\n")\<close>\<close>

fun join_lines :: "string list \<Rightarrow> string" where
  "join_lines [] = []"
| "join_lines [l] = l"
| "join_lines (l # ls) = l @ LF # join_lines ls"

text \<open>\<^verbatim>\<open>s.replace(/\r/g, "")\<close>\<close>

definition strip_cr :: "string \<Rightarrow> string" where
  "strip_cr s = filter (\<lambda>c. c \<noteq> CR) s"

text \<open>\<^verbatim>\<open>line.slice(4).split("\t")[0]?.trim() ?? dflt\<close>, the path portion of a header line.\<close>

definition header_path :: "string \<Rightarrow> string option" where
  "header_path line =
     (case split_on TAB (drop 4 line) of
        [] \<Rightarrow> None
      | x # _ \<Rightarrow> Some (trim x))"

section \<open>normalizePatchPath\<close>

definition normalizePatchPath :: "string option \<Rightarrow> string option" where
  "normalizePatchPath rawPath =
     (case rawPath of
        None \<Rightarrow> None
      | Some raw \<Rightarrow>
          if raw = [] then None
          else
            let slashed = map (\<lambda>c. if c = BACKSLASH then CHR ''/'' else c) raw;
                undotted = (if prefix ''./'' slashed then drop 2 slashed else slashed);
                trimmed = trim undotted
            in if trimmed = [] \<or> trimmed = ''/dev/null'' then None
               else if prefix ''a/'' trimmed \<or> prefix ''b/'' trimmed then Some (drop 2 trimmed)
               else Some trimmed)"

section \<open>sanitizePatchTargets\<close>

text \<open>The second parameter of the source is \<^verbatim>\<open>string | string[]\<close>.\<close>

datatype targets = Single string | Many "string list"

definition target_list :: "targets \<Rightarrow> string list" where
  "target_list t = (case t of Single s \<Rightarrow> [s] | Many ss \<Rightarrow> ss)"

text \<open>
  \<^verbatim>\<open>new Set(list.filter(Boolean).map((value) => normalizePatchPath(value) ?? value))\<close>:
  the members in insertion order; a duplicate changes no membership test.
\<close>

definition normalizedTargets :: "targets \<Rightarrow> string list" where
  "normalizedTargets t =
     map (\<lambda>v. case normalizePatchPath (Some v) of None \<Rightarrow> v | Some p \<Rightarrow> p)
       (filter (\<lambda>v. v \<noteq> []) (target_list t))"

text \<open>The loop that fills \<^verbatim>\<open>accepted\<close>; \<^verbatim>\<open>if (restful)\<close> refuses null and the empty string.\<close>

fun add_accepted :: "string list \<Rightarrow> string list \<Rightarrow> string list" where
  "add_accepted acc [] = acc"
| "add_accepted acc (t # ts) =
     (case normalizePatchPath (Some t) of
        None \<Rightarrow> add_accepted acc ts
      | Some restful \<Rightarrow>
          if restful = [] then add_accepted acc ts
          else add_accepted (acc @ [restful, ''a/'' @ restful, ''b/'' @ restful]) ts)"

definition accepted :: "targets \<Rightarrow> string set" where
  "accepted t = set (add_accepted [] (normalizedTargets t))"

text \<open>The loop over the lines of the patch text; the first offending header throws.\<close>

fun check_lines :: "string set \<Rightarrow> string list \<Rightarrow> patch_error + unit" where
  "check_lines acc [] = Inr ()"
| "check_lines acc (line # rest) =
     (if prefix ''--- '' line \<or> prefix ''+++ '' line then
        (let candidate = (case header_path line of None \<Rightarrow> [] | Some c \<Rightarrow> c) in
         if candidate = [] \<or> candidate = ''/dev/null'' then check_lines acc rest
         else
           (case normalizePatchPath (Some candidate) of
              None \<Rightarrow> Inl (UnexpectedPath candidate)
            | Some normalizedCandidate \<Rightarrow>
                if normalizedCandidate = []
                   \<or> (normalizedCandidate \<notin> acc \<and> candidate \<notin> acc)
                then Inl (UnexpectedPath candidate)
                else check_lines acc rest))
      else check_lines acc rest)"

definition sanitizePatchTargets :: "string \<Rightarrow> targets \<Rightarrow> patch_error + unit" where
  "sanitizePatchTargets patchText targetRelativePaths =
     check_lines (accepted targetRelativePaths) (split_on LF patchText)"

section \<open>splitUnifiedDiffByFile\<close>

record ParsedFilePatch =
  patchText :: string
  oldPath :: "string option"
  newPath :: "string option"
  rawOldPath :: "string option"
  rawNewPath :: "string option"

text \<open>The local variables of the function, which \<^verbatim>\<open>pushPatch\<close> reads and resets.\<close>

record split_state =
  patches :: "ParsedFilePatch list"
  buffer :: "string list"
  rawOld :: "string option"
  rawNew :: "string option"
  recording :: bool

definition pushPatch :: "split_state \<Rightarrow> split_state" where
  "pushPatch s =
     (if \<not> recording s then s\<lparr>buffer := [], rawOld := None, rawNew := None\<rparr>
      else s\<lparr>patches := patches s @
                 [\<lparr>patchText = join_lines (buffer s),
                   oldPath = normalizePatchPath (rawOld s),
                   newPath = normalizePatchPath (rawNew s),
                   rawOldPath = rawOld s,
                   rawNewPath = rawNew s\<rparr>],
             buffer := [], rawOld := None, rawNew := None, recording := False\<rparr>)"

text \<open>The two statements after the recording test: they note the raw header paths.\<close>

definition note_paths :: "string \<Rightarrow> split_state \<Rightarrow> split_state" where
  "note_paths line s =
     (if prefix ''--- '' line then s\<lparr>rawOld := header_path line\<rparr>
      else if prefix ''+++ '' line then s\<lparr>rawNew := header_path line\<rparr>
      else s)"

definition split_step :: "split_state \<Rightarrow> string \<Rightarrow> split_state" where
  "split_step s line =
     (if prefix ''diff --git '' line then (pushPatch s)\<lparr>buffer := [line], recording := True\<rparr>
      else if \<not> recording s then
        (if prefix ''--- '' line \<or> prefix ''+++ '' line \<or> prefix ''@@ '' line
         then note_paths line (s\<lparr>buffer := [line], recording := True\<rparr>)
         else s)
      else note_paths line (s\<lparr>buffer := buffer s @ [line]\<rparr>))"

definition split_init :: split_state where
  "split_init = \<lparr>patches = [], buffer = [], rawOld = None, rawNew = None, recording = False\<rparr>"

definition splitUnifiedDiffByFile :: "string \<Rightarrow> ParsedFilePatch list" where
  "splitUnifiedDiffByFile text =
     filter (\<lambda>p. rawOldPath p \<noteq> None \<or> rawNewPath p \<noteq> None)
       (patches (pushPatch (foldl split_step split_init (split_on LF (strip_cr text)))))"

section \<open>applyUnifiedDiff\<close>

text \<open>
  \<^verbatim>\<open>/^@@ -(\d+)(?:,(\d+))? \+(\d+)(?:,(\d+))? @@/\<close>, matched from the left. Each group
  of digits is followed by a character that is no digit, so the greedy match is the only one.
\<close>

definition is_digit :: "char \<Rightarrow> bool" where
  "is_digit c = (48 \<le> (of_char c :: nat) \<and> (of_char c :: nat) \<le> 57)"

text \<open>\<^verbatim>\<open>(\d+)\<close>: the digits and what follows them.\<close>

definition digits1 :: "string \<Rightarrow> (string \<times> string) option" where
  "digits1 s =
     (if takeWhile is_digit s = [] then None
      else Some (takeWhile is_digit s, dropWhile is_digit s))"

text \<open>\<^verbatim>\<open>(?:,(\d+))?\<close>: what follows the optional count.\<close>

definition opt_count :: "string \<Rightarrow> string" where
  "opt_count s =
     (case s of
        [] \<Rightarrow> s
      | c # cs \<Rightarrow>
          if c = CHR '','' then (case digits1 cs of None \<Rightarrow> s | Some (_, r) \<Rightarrow> r)
          else s)"

definition expect :: "string \<Rightarrow> string \<Rightarrow> string option" where
  "expect p s = (if prefix p s then Some (drop (length p) s) else None)"

text \<open>The first capture group of a match, \<^verbatim>\<open>match[1]\<close>; \<open>None\<close> when the line does not match.\<close>

definition hunkHeaderPattern :: "string \<Rightarrow> string option" where
  "hunkHeaderPattern line =
     (case expect ''@@ -'' line of
        None \<Rightarrow> None
      | Some r1 \<Rightarrow>
          (case digits1 r1 of
             None \<Rightarrow> None
           | Some (oldStart, r2) \<Rightarrow>
               (case expect '' +'' (opt_count r2) of
                  None \<Rightarrow> None
                | Some r3 \<Rightarrow>
                    (case digits1 r3 of
                       None \<Rightarrow> None
                     | Some (_, r4) \<Rightarrow>
                         (case expect '' @@'' (opt_count r4) of
                            None \<Rightarrow> None
                          | Some _ \<Rightarrow> Some oldStart)))))"

text \<open>
  \<^verbatim>\<open>parseInt(digits, 10)\<close> on a string of decimal digits. The source computes in
  doubles; the model computes in \<^typ>\<open>nat\<close>, which gives the same order against a cursor
  below \<open>2 ^ 53\<close>.
\<close>

definition parseInt :: "string \<Rightarrow> nat" where
  "parseInt ds = foldl (\<lambda>n c. 10 * n + (of_char c - 48)) 0 ds"

text \<open>\<^verbatim>\<open>Math.max(parseInt(match[1] ?? "0", 10) - 1, 0)\<close>\<close>

definition startOld_of :: "string \<Rightarrow> nat" where
  "startOld_of ds = nat (max (int (parseInt ds) - 1) 0)"

text \<open>\<^verbatim>\<open>sourceLines[sourceIndex] ?? ""\<close>\<close>

definition source_at :: "string list \<Rightarrow> nat \<Rightarrow> string" where
  "source_at sourceLines i = (if i < length sourceLines then sourceLines ! i else [])"

text \<open>
  The state of the application is the pair of \<^verbatim>\<open>outputLines\<close> and \<^verbatim>\<open>sourceIndex\<close>.
  The catch-up loop copies source lines up to \<^verbatim>\<open>startOld\<close>.
\<close>

type_synonym apply_state = "string list \<times> nat"

function catch_up :: "string list \<Rightarrow> apply_state \<Rightarrow> nat \<Rightarrow> patch_error + apply_state" where
  "catch_up sourceLines (outputLines, sourceIndex) startOld =
     (if sourceIndex < startOld then
        (if sourceIndex < length sourceLines
         then catch_up sourceLines
                (outputLines @ [sourceLines ! sourceIndex], sourceIndex + 1) startOld
         else Inl HunkExceeds)
      else Inr (outputLines, sourceIndex))"
  by pat_completeness auto
termination
  by (relation "measure (\<lambda>(src, (out, i), s). length src - i)") auto

text \<open>One line of a hunk body, from \<^verbatim>\<open>const marker\<close> to the end of the chain of tests.\<close>

definition hunk_line :: "string list \<Rightarrow> apply_state \<Rightarrow> string \<Rightarrow> patch_error + apply_state" where
  "hunk_line sourceLines st hunkLine =
     (case st of (outputLines, sourceIndex) \<Rightarrow>
        let marker = take 1 hunkLine;
            payload = drop 1 hunkLine
        in if marker = '' '' then
             (let expected = payload;
                  actual = source_at sourceLines sourceIndex
              in if expected \<noteq> actual then Inl (ContextMismatch expected actual)
                 else Inr (outputLines @ [actual], sourceIndex + 1))
           else if marker = ''-'' then
             (let actual = source_at sourceLines sourceIndex
              in if payload \<noteq> actual then Inl (DeletionMismatch payload actual)
                 else Inr (outputLines, sourceIndex + 1))
           else if marker = ''+'' then Inr (outputLines @ [payload], sourceIndex)
           else if trim marker = [] then Inr (outputLines @ [[]], sourceIndex)
           else Inl (UnsupportedLine hunkLine))"

text \<open>
  The outer loop (\<open>scan_lines\<close>) looks for a hunk header; the inner loop (\<open>hunk_body\<close>)
  consumes the body. Both run over the patch lines from index \<^verbatim>\<open>i\<close> on. A header line
  met in a body is looked at again by the outer loop (\<^verbatim>\<open>i--; break;\<close> and then
  \<^verbatim>\<open>i++\<close>).
\<close>

fun scan_lines :: "string list \<Rightarrow> apply_state \<Rightarrow> string list \<Rightarrow> patch_error + apply_state"
  and hunk_body :: "string list \<Rightarrow> apply_state \<Rightarrow> string list \<Rightarrow> patch_error + apply_state"
  where
  "scan_lines sourceLines st [] = Inr st"
| "scan_lines sourceLines st (line # rest) =
     (if line = [] \<or> \<not> prefix ''@@ '' line then scan_lines sourceLines st rest
      else
        (case hunkHeaderPattern line of
           None \<Rightarrow> Inl (InvalidHunkHeader line)
         | Some oldStart \<Rightarrow>
             (case catch_up sourceLines st (startOld_of oldStart) of
                Inl e \<Rightarrow> Inl e
              | Inr st' \<Rightarrow> hunk_body sourceLines st' rest)))"
| "hunk_body sourceLines st [] = Inr st"
| "hunk_body sourceLines st (hunkLine # rest) =
     (if hunkLine = [] then hunk_body sourceLines st rest
      else if prefix ''@@ '' hunkLine \<or> prefix ''--- '' hunkLine \<or> prefix ''+++ '' hunkLine
        then scan_lines sourceLines st (hunkLine # rest)
      else if prefix (BACKSLASH # '' No newline'') hunkLine then hunk_body sourceLines st rest
      else
        (case hunk_line sourceLines st hunkLine of
           Inl e \<Rightarrow> Inl e
         | Inr st' \<Rightarrow> hunk_body sourceLines st' rest))"

text \<open>The last loop: the source lines from the cursor on are copied to the output.\<close>

function copy_rest :: "string list \<Rightarrow> apply_state \<Rightarrow> string list" where
  "copy_rest sourceLines (outputLines, sourceIndex) =
     (if sourceIndex < length sourceLines
      then copy_rest sourceLines
             (outputLines @ [source_at sourceLines sourceIndex], sourceIndex + 1)
      else outputLines)"
  by pat_completeness auto
termination
  by (relation "measure (\<lambda>(src, (out, i)). length src - i)") auto

definition applyUnifiedDiff :: "string \<Rightarrow> string \<Rightarrow> patch_error + string" where
  "applyUnifiedDiff baseText diffText =
     (let sourceLines = split_on LF (strip_cr baseText);
          patchLines = split_on LF (strip_cr diffText)
      in case scan_lines sourceLines ([], 0) patchLines of
           Inl e \<Rightarrow> Inl e
         | Inr st \<Rightarrow> Inr (join_lines (copy_rest sourceLines st)))"

section \<open>The accepted header lines, in the words of the specification\<close>

text \<open>
  The path portion of a header line: the text after the 4-character prefix, up to the
  first tab, trimmed.
\<close>

definition path_portion :: "string \<Rightarrow> string" where
  "path_portion line = trim (takeWhile (\<lambda>c. c \<noteq> TAB) (drop 4 line))"

text \<open>
  A line that makes the validation fail against the accepted set \<open>A\<close>: a header line
  whose path portion is non-empty, is not \<^verbatim>\<open>/dev/null\<close>, and either normalizes to
  nothing (null or the empty string) or is absent from \<open>A\<close> both normalized and raw.
\<close>

definition unexpected_header :: "string set \<Rightarrow> string \<Rightarrow> bool" where
  "unexpected_header A line =
     ((prefix ''--- '' line \<or> prefix ''+++ '' line)
      \<and> path_portion line \<noteq> []
      \<and> path_portion line \<noteq> ''/dev/null''
      \<and> (case normalizePatchPath (Some (path_portion line)) of
            None \<Rightarrow> True
          | Some n \<Rightarrow> n = [] \<or> (n \<notin> A \<and> path_portion line \<notin> A)))"

text \<open>The three forms under which one path enters the accepted set.\<close>

definition path_forms :: "string option \<Rightarrow> string set" where
  "path_forms r =
     (case r of
        None \<Rightarrow> {}
      | Some p \<Rightarrow> if p = [] then {} else {p, ''a/'' @ p, ''b/'' @ p})"

section \<open>Lines: splitting and joining\<close>

declare catch_up.simps [simp del]

declare copy_rest.simps [simp del]

lemma split_on_not_Nil: "split_on sep s \<noteq> []"
  by (induction s) (auto split: list.splits)

lemma split_on_takeWhile:
  "\<exists>ls. split_on sep s = takeWhile (\<lambda>c. c \<noteq> sep) s # ls"
  by (induction s) auto

lemma join_lines_Cons: "ls \<noteq> [] \<Longrightarrow> join_lines (l # ls) = l @ LF # join_lines ls"
  by (cases ls) simp_all

lemma join_split_on: "join_lines (split_on LF s) = s"
proof (induction s)
  case Nil
  show ?case by simp
next
  case (Cons c cs)
  show ?case
  proof (cases "c = LF")
    case True
    with Cons show ?thesis by (simp add: join_lines_Cons split_on_not_Nil)
  next
    case False
    obtain l ls where sp: "split_on LF cs = l # ls"
      using split_on_not_Nil [of LF cs] by (cases "split_on LF cs") auto
    have "join_lines ((c # l) # ls) = c # join_lines (l # ls)"
      by (cases ls) simp_all
    with False sp Cons show ?thesis by simp
  qed
qed

lemma split_on_no_sep: "sep \<notin> set l \<Longrightarrow> split_on sep l = [l]"
  by (induction l) auto

lemma split_on_append_sep:
  "sep \<notin> set l \<Longrightarrow> split_on sep (l @ sep # s) = l # split_on sep s"
  by (induction l) auto

lemma split_on_join:
  "ls \<noteq> [] \<Longrightarrow> \<forall>l\<in>set ls. LF \<notin> set l \<Longrightarrow> split_on LF (join_lines ls) = ls"
proof (induction ls rule: join_lines.induct)
  case 1
  then show ?case by simp
next
  case (2 l)
  then show ?case by (simp add: split_on_no_sep)
next
  case (3 l v va)
  then show ?case by (simp add: split_on_append_sep)
qed

lemma split_on_line_no_sep: "l \<in> set (split_on sep s) \<Longrightarrow> sep \<notin> set l"
proof (induction s arbitrary: l)
  case Nil
  then show ?case by simp
next
  case (Cons c cs)
  then show ?case
    by (cases "split_on sep cs") (auto split: if_splits)
qed

lemma set_line_subset_join: "l \<in> set ls \<Longrightarrow> set l \<subseteq> set (join_lines ls)"
  by (induction ls rule: join_lines.induct) auto

lemma strip_cr_join: "strip_cr (join_lines ls) = join_lines (map strip_cr ls)"
  by (induction ls rule: join_lines.induct) (simp_all add: strip_cr_def LF_def CR_def)

lemma strip_cr_idem: "CR \<notin> set l \<Longrightarrow> strip_cr l = l"
  by (induction l) (auto simp: strip_cr_def)

lemma split_on_strip_cr_Cons:
  assumes "LF \<notin> set h"
  shows "split_on LF (strip_cr (h @ LF # rest)) = strip_cr h # split_on LF (strip_cr rest)"
proof -
  from assms have "LF \<notin> set (strip_cr h)" by (simp add: strip_cr_def)
  moreover have "strip_cr (h @ LF # rest) = strip_cr h @ LF # strip_cr rest"
    by (simp add: strip_cr_def LF_def CR_def)
  ultimately show ?thesis by (simp add: split_on_append_sep)
qed

lemma line_of_stripped_no_cr:
  assumes "l \<in> set (split_on LF (strip_cr s))"
  shows "CR \<notin> set l"
proof
  assume "CR \<in> set l"
  with set_line_subset_join [OF assms] have "CR \<in> set (strip_cr s)"
    by (auto simp: join_split_on)
  then show False by (simp add: strip_cr_def)
qed

section \<open>sanitizePatchTargets: when the validation throws\<close>

lemma header_path_eq: "header_path line = Some (path_portion line)"
  using split_on_takeWhile [of TAB "drop 4 line"]
  by (auto simp: header_path_def path_portion_def)

lemma check_lines_find:
  "check_lines A ls =
     (case find (unexpected_header A) ls of
        None \<Rightarrow> Inr ()
      | Some l \<Rightarrow> Inl (UnexpectedPath (path_portion l)))"
  by (induction ls)
     (auto simp: unexpected_header_def header_path_eq Let_def split: option.splits)

text \<open>
  C1. \<open>sanitizePatchTargets\<close> throws "Patch references unexpected file path", naming the
  candidate, if and only if the patch text has a line beginning with \<^verbatim>\<open>"--- "\<close> or
  \<^verbatim>\<open>"+++ "\<close> whose path portion is non-empty, is not \<^verbatim>\<open>/dev/null\<close>, and either
  normalizes to null or the empty string, or is absent from the accepted set both in its
  normalized and in its raw form; otherwise the call returns normally. The candidate named
  is the path portion of such a line.
\<close>

theorem sanitizePatchTargets_throws_iff:
  "((\<exists>c. sanitizePatchTargets txt ts = Inl (UnexpectedPath c))
      \<longleftrightarrow> (\<exists>line\<in>set (split_on LF txt). unexpected_header (accepted ts) line))
   \<and> ((\<forall>line\<in>set (split_on LF txt). \<not> unexpected_header (accepted ts) line)
      \<longrightarrow> sanitizePatchTargets txt ts = Inr ())
   \<and> (\<forall>e. sanitizePatchTargets txt ts = Inl e \<longrightarrow>
        (\<exists>line\<in>set (split_on LF txt).
           unexpected_header (accepted ts) line \<and> e = UnexpectedPath (path_portion line)))"
proof -
  let ?ls = "split_on LF txt" and ?A = "accepted ts"
  show ?thesis
  proof (cases "find (unexpected_header ?A) ?ls")
    case None
    then have "\<forall>l\<in>set ?ls. \<not> unexpected_header ?A l"
      by (simp add: find_None_iff)
    with None show ?thesis
      by (simp add: sanitizePatchTargets_def check_lines_find)
  next
    case (Some l)
    then have "l \<in> set ?ls" "unexpected_header ?A l"
      by (auto simp: find_Some_iff)
    with Some show ?thesis
      by (auto simp: sanitizePatchTargets_def check_lines_find)
  qed
qed

theorem sanitizePatchTargets_throws_iff_witness:
  "(\<exists>line\<in>set (split_on LF (''--- a/a.txt'' @ LF # ''+++ b/b.txt'')).
      unexpected_header (accepted (Single ''a.txt'')) line)
   \<and> sanitizePatchTargets (''--- a/a.txt'' @ LF # ''+++ b/b.txt'') (Single ''a.txt'')
       = Inl (UnexpectedPath ''b/b.txt'')
   \<and> sanitizePatchTargets (''--- a/a.txt'' @ LF # ''+++ b/a.txt'') (Single ''a.txt'') = Inr ()"
proof -
  have thrown: "sanitizePatchTargets (''--- a/a.txt'' @ LF # ''+++ b/b.txt'') (Single ''a.txt'')
      = Inl (UnexpectedPath ''b/b.txt'')"
    by code_simp
  have passed: "sanitizePatchTargets (''--- a/a.txt'' @ LF # ''+++ b/a.txt'') (Single ''a.txt'')
      = Inr ()"
    by code_simp
  from thrown
    sanitizePatchTargets_throws_iff [of "''--- a/a.txt'' @ LF # ''+++ b/b.txt''" "Single ''a.txt''"]
  have "\<exists>line\<in>set (split_on LF (''--- a/a.txt'' @ LF # ''+++ b/b.txt'')).
      unexpected_header (accepted (Single ''a.txt'')) line"
    by blast
  with thrown passed show ?thesis by blast
qed

section \<open>sanitizePatchTargets: the accepted set\<close>

lemma set_add_accepted:
  "set (add_accepted acc ts)
     = set acc \<union> (\<Union>t\<in>set ts. path_forms (normalizePatchPath (Some t)))"
  by (induction ts arbitrary: acc) (auto simp: path_forms_def split: option.splits)

text \<open>
  The accepted set as the code builds it: each non-empty target is normalized (or kept
  when it normalizes to null), and the result is normalized a second time before its
  three forms are inserted.
\<close>

lemma accepted_eq:
  "accepted t = (\<Union>v\<in>set (normalizedTargets t). path_forms (normalizePatchPath (Some v)))"
  by (simp add: accepted_def set_add_accepted)

text \<open>
  C2. The claim: the accepted set holds, for each non-empty target \<open>t\<close> that normalizes
  to a path \<open>p\<close>, exactly \<open>p\<close>, \<open>a/p\<close> and \<open>b/p\<close>, the normalization being applied once;
  for the target \<^verbatim>\<open>a/b/x.txt\<close> that is \<^verbatim>\<open>b/x.txt\<close>, \<^verbatim>\<open>a/b/x.txt\<close> and \<^verbatim>\<open>b/b/x.txt\<close>.
  The code normalizes twice: for this target it accepts \<^verbatim>\<open>x.txt\<close>, \<^verbatim>\<open>a/x.txt\<close> and
  \<^verbatim>\<open>b/x.txt\<close>, so the header that git writes for the file \<^verbatim>\<open>a/b/x.txt\<close> is refused and
  a header for the file \<^verbatim>\<open>x.txt\<close> passes.
\<close>

theorem accepted_strips_prefix_twice:
  "path_forms (normalizePatchPath (Some ''a/b/x.txt''))
     = {''b/x.txt'', ''a/b/x.txt'', ''b/b/x.txt''}
   \<and> accepted (Many [''a/b/x.txt'']) = {''x.txt'', ''a/x.txt'', ''b/x.txt''}
   \<and> ''a/b/x.txt'' \<notin> accepted (Many [''a/b/x.txt''])
   \<and> ''b/b/x.txt'' \<notin> accepted (Many [''a/b/x.txt''])
   \<and> sanitizePatchTargets (''--- a/a/b/x.txt'' @ LF # ''+++ b/a/b/x.txt'')
        (Many [''a/b/x.txt'']) = Inl (UnexpectedPath ''a/a/b/x.txt'')
   \<and> sanitizePatchTargets (''--- a/x.txt'' @ LF # ''+++ b/x.txt'')
        (Many [''a/b/x.txt'']) = Inr ()"
proof (intro conjI)
  show "path_forms (normalizePatchPath (Some ''a/b/x.txt''))
     = {''b/x.txt'', ''a/b/x.txt'', ''b/b/x.txt''}"
    by code_simp
  show "accepted (Many [''a/b/x.txt'']) = {''x.txt'', ''a/x.txt'', ''b/x.txt''}"
    by code_simp
  show "''a/b/x.txt'' \<notin> accepted (Many [''a/b/x.txt''])"
    by code_simp
  show "''b/b/x.txt'' \<notin> accepted (Many [''a/b/x.txt''])"
    by code_simp
  show "sanitizePatchTargets (''--- a/a/b/x.txt'' @ LF # ''+++ b/a/b/x.txt'')
        (Many [''a/b/x.txt'']) = Inl (UnexpectedPath ''a/a/b/x.txt'')"
    by code_simp
  show "sanitizePatchTargets (''--- a/x.txt'' @ LF # ''+++ b/x.txt'')
        (Many [''a/b/x.txt'']) = Inr ()"
    by code_simp
qed

section \<open>splitUnifiedDiffByFile: the segments returned\<close>

text \<open>
  C7. Every segment returned by \<open>splitUnifiedDiffByFile\<close> has a raw old path or a raw new
  path: a candidate segment with neither is dropped before the result is returned. The
  function has no throw site: the model is a total function to a list of segments.
\<close>

theorem split_segments_have_path:
  "\<forall>p\<in>set (splitUnifiedDiffByFile txt). rawOldPath p \<noteq> None \<or> rawNewPath p \<noteq> None"
  by (simp add: splitUnifiedDiffByFile_def)

theorem split_segments_have_path_witness:
  "map rawOldPath (splitUnifiedDiffByFile
      (join_lines [''@@ -1 +1 @@'', ''-a'', ''diff --git a/x b/x'', ''--- a/x'', ''+++ b/x'']))
     = [Some ''a/x'']
   \<and> (\<exists>p\<in>set (splitUnifiedDiffByFile
      (join_lines [''@@ -1 +1 @@'', ''-a'', ''diff --git a/x b/x'', ''--- a/x'', ''+++ b/x''])).
        rawOldPath p \<noteq> None \<or> rawNewPath p \<noteq> None)"
proof -
  let ?segments = "splitUnifiedDiffByFile
      (join_lines [''@@ -1 +1 @@'', ''-a'', ''diff --git a/x b/x'', ''--- a/x'', ''+++ b/x''])"
  have paths: "map rawOldPath ?segments = [Some ''a/x'']"
    by code_simp
  then obtain p where "p \<in> set ?segments"
    by (cases ?segments) auto
  with split_segments_have_path
    [of "join_lines [''@@ -1 +1 @@'', ''-a'', ''diff --git a/x b/x'', ''--- a/x'', ''+++ b/x'']"]
  have "\<exists>p\<in>set ?segments. rawOldPath p \<noteq> None \<or> rawNewPath p \<noteq> None"
    by blast
  with paths show ?thesis by blast
qed

section \<open>applyUnifiedDiff: catching up to a hunk\<close>

lemma catch_up_eq:
  "catch_up src (out, c) s =
     (if c < s then
        (if s \<le> length src then Inr (out @ take (s - c) (drop c src), s)
         else Inl HunkExceeds)
      else Inr (out, c))"
proof (induction src "(out, c)" s arbitrary: out c rule: catch_up.induct)
  case (1 src out c s)
  show ?case
  proof (cases "c < s \<and> c < length src")
    case True
    then have d: "drop c src = src ! c # drop (Suc c) src"
      by (simp add: Cons_nth_drop_Suc)
    from True have "s - c = Suc (s - Suc c)" by arith
    with d have t: "take (s - c) (drop c src) = src ! c # take (s - Suc c) (drop (Suc c) src)"
      by simp
    from True have step: "catch_up src (out, c) s = catch_up src (out @ [src ! c], Suc c) s"
      by (subst catch_up.simps) simp
    from True have ih: "catch_up src (out @ [src ! c], Suc c) s =
       (if Suc c < s then
          (if s \<le> length src
           then Inr ((out @ [src ! c]) @ take (s - Suc c) (drop (Suc c) src), s)
           else Inl HunkExceeds)
        else Inr (out @ [src ! c], Suc c))"
      using "1" by simp
    show ?thesis
    proof (cases "Suc c < s")
      case True
      with \<open>c < s \<and> c < length src\<close> step ih t show ?thesis by simp
    next
      case False
      with \<open>c < s \<and> c < length src\<close> have "s = Suc c" by simp
      with \<open>c < s \<and> c < length src\<close> step ih t show ?thesis by simp
    qed
  next
    case False
    then show ?thesis by (subst catch_up.simps) auto
  qed
qed

lemma hunkHeaderPattern_prefix:
  "hunkHeaderPattern line = Some ds \<Longrightarrow> prefix ''@@ '' line \<and> line \<noteq> []"
  by (auto simp: hunkHeaderPattern_def expect_def prefix_def split: option.splits if_splits)

lemma scan_lines_skip:
  "\<forall>l\<in>set pre. \<not> prefix ''@@ '' l \<Longrightarrow>
   scan_lines src st (pre @ rest) = scan_lines src st rest"
  by (induction pre) simp_all

lemma scan_lines_header:
  assumes "\<forall>l\<in>set pre. \<not> prefix ''@@ '' l" and "hunkHeaderPattern h = Some ds"
  shows "scan_lines src st (pre @ h # rest) =
     (case catch_up src st (startOld_of ds) of
        Inl e \<Rightarrow> Inl e
      | Inr st' \<Rightarrow> hunk_body src st' rest)"
proof -
  from assms(2) have "prefix ''@@ '' h" and "h \<noteq> []"
    using hunkHeaderPattern_prefix by blast+
  with assms(2) show ?thesis
    unfolding scan_lines_skip [OF assms(1)] by simp
qed

lemma copy_rest_eq: "copy_rest src (out, i) = out @ drop i src"
proof (induction src "(out, i)" arbitrary: out i rule: copy_rest.induct)
  case (1 src out i)
  show ?case
  proof (cases "i < length src")
    case True
    then have "drop i src = src ! i # drop (Suc i) src"
      by (simp add: Cons_nth_drop_Suc)
    with True "1" show ?thesis
      by (subst copy_rest.simps) (simp add: source_at_def)
  next
    case False
    then show ?thesis by (subst copy_rest.simps) simp
  qed
qed

text \<open>
  C4. Before a hunk body, the source lines from the cursor up to
  \<^verbatim>\<open>startOld = max(oldStart - 1, 0)\<close> are copied to the output and the cursor ends at
  \<^verbatim>\<open>startOld\<close>; the body then runs from that state. When the cursor is below
  \<^verbatim>\<open>startOld\<close> and \<^verbatim>\<open>startOld\<close> exceeds the number of source lines, the cursor meets
  the end of the source first and the call throws "Patch hunk exceeds original file
  length.": the scan stops with this error at the header of such a hunk, and a diff whose
  first hunk header has so large an \<^verbatim>\<open>oldStart\<close> makes \<open>applyUnifiedDiff\<close> return the
  error, whatever follows the header. A cursor already at or beyond \<^verbatim>\<open>startOld\<close> is
  left where it is: nothing is copied and nothing is thrown. The first conjunct is the
  catch-up loop alone, the second the scan at any hunk header, the third the whole call
  at the first hunk header of a diff.
\<close>

theorem catch_up_copies_or_exceeds:
  "catch_up src (out, c) s =
     (if c < s then
        (if s \<le> length src then Inr (out @ take (s - c) (drop c src), s)
         else Inl HunkExceeds)
      else Inr (out, c))
   \<and> ((\<forall>l\<in>set pre. \<not> prefix ''@@ '' l) \<longrightarrow> hunkHeaderPattern h = Some ds \<longrightarrow>
        scan_lines src (out, c) (pre @ h # rest) =
          (if c < nat (max (int (parseInt ds) - 1) 0) then
             (if nat (max (int (parseInt ds) - 1) 0) \<le> length src
              then hunk_body src
                     (out @ take (nat (max (int (parseInt ds) - 1) 0) - c) (drop c src),
                      nat (max (int (parseInt ds) - 1) 0)) rest
              else Inl HunkExceeds)
           else hunk_body src (out, c) rest))
   \<and> (split_on LF (strip_cr diffText) = pre @ h # rest \<longrightarrow>
        (\<forall>l\<in>set pre. \<not> prefix ''@@ '' l) \<longrightarrow> hunkHeaderPattern h = Some ds \<longrightarrow>
        applyUnifiedDiff baseText diffText =
          (if nat (max (int (parseInt ds) - 1) 0) \<le> length (split_on LF (strip_cr baseText))
           then
             (case hunk_body (split_on LF (strip_cr baseText))
                     (take (nat (max (int (parseInt ds) - 1) 0))
                        (split_on LF (strip_cr baseText)),
                      nat (max (int (parseInt ds) - 1) 0)) rest of
                Inl e \<Rightarrow> Inl e
              | Inr st \<Rightarrow> Inr (join_lines (copy_rest (split_on LF (strip_cr baseText)) st)))
           else Inl HunkExceeds))"
proof (intro conjI impI)
  show "catch_up src (out, c) s =
     (if c < s then
        (if s \<le> length src then Inr (out @ take (s - c) (drop c src), s)
         else Inl HunkExceeds)
      else Inr (out, c))"
    by (rule catch_up_eq)
next
  assume pre: "\<forall>l\<in>set pre. \<not> prefix ''@@ '' l" and m: "hunkHeaderPattern h = Some ds"
  show "scan_lines src (out, c) (pre @ h # rest) =
          (if c < nat (max (int (parseInt ds) - 1) 0) then
             (if nat (max (int (parseInt ds) - 1) 0) \<le> length src
              then hunk_body src
                     (out @ take (nat (max (int (parseInt ds) - 1) 0) - c) (drop c src),
                      nat (max (int (parseInt ds) - 1) 0)) rest
              else Inl HunkExceeds)
           else hunk_body src (out, c) rest)"
    unfolding startOld_of_def [symmetric] scan_lines_header [OF pre m] catch_up_eq by simp
next
  assume lines: "split_on LF (strip_cr diffText) = pre @ h # rest"
    and pre: "\<forall>l\<in>set pre. \<not> prefix ''@@ '' l" and m: "hunkHeaderPattern h = Some ds"
  show "applyUnifiedDiff baseText diffText =
          (if nat (max (int (parseInt ds) - 1) 0) \<le> length (split_on LF (strip_cr baseText))
           then
             (case hunk_body (split_on LF (strip_cr baseText))
                     (take (nat (max (int (parseInt ds) - 1) 0))
                        (split_on LF (strip_cr baseText)),
                      nat (max (int (parseInt ds) - 1) 0)) rest of
                Inl e \<Rightarrow> Inl e
              | Inr st \<Rightarrow> Inr (join_lines (copy_rest (split_on LF (strip_cr baseText)) st)))
           else Inl HunkExceeds)"
    unfolding startOld_of_def [symmetric] applyUnifiedDiff_def Let_def lines
      scan_lines_header [OF pre m] catch_up_eq
    by simp
qed

theorem catch_up_copies_or_exceeds_witness:
  "catch_up [''a'', ''b'', ''c''] ([], 0) 2 = Inr ([''a'', ''b''], 2)
   \<and> catch_up [''a'', ''b'', ''c''] ([], 0) 4 = Inl HunkExceeds
   \<and> scan_lines [''a'', ''b'', ''c''] ([], 0) [''--- a/x'', ''@@ -3 +3 @@'', ''+x'']
       = Inr ([''a'', ''b'', ''x''], 2)
   \<and> applyUnifiedDiff (join_lines [''a'', ''b'', ''c''])
        (join_lines [''--- a/x'', ''+++ b/x'', ''@@ -3 +3 @@'', ''+x''])
       = Inr (join_lines [''a'', ''b'', ''x'', ''c''])
   \<and> applyUnifiedDiff (join_lines [''a'', ''b'', ''c''])
        (join_lines [''--- a/x'', ''+++ b/x'', ''@@ -0,0 +1 @@'', ''+x''])
       = Inr (join_lines [''x'', ''a'', ''b'', ''c''])
   \<and> applyUnifiedDiff (join_lines [''a'', ''b'', ''c''])
        (join_lines [''--- a/x'', ''+++ b/x'', ''@@ -4 +4 @@'', ''+x''])
       = Inr (join_lines [''a'', ''b'', ''c'', ''x''])
   \<and> applyUnifiedDiff (join_lines [''a'', ''b'', ''c''])
        (join_lines [''--- a/x'', ''+++ b/x'', ''@@ -5 +5 @@'', ''+x''])
       = Inl HunkExceeds
   \<and> applyUnifiedDiff ''a''
        (join_lines [''--- a/x'', ''+++ b/x'', ''@@ -99999999999999999999,1 +1 @@'', ''+x''])
       = Inl HunkExceeds"
proof -
  have pre: "\<forall>l\<in>set [''--- a/x'', ''+++ b/x'']. \<not> prefix ''@@ '' l"
    and pre': "\<forall>l\<in>set [''--- a/x'']. \<not> prefix ''@@ '' l"
    by simp_all
  have src: "split_on LF (strip_cr (join_lines [''a'', ''b'', ''c''])) = [''a'', ''b'', ''c'']"
    and src': "split_on LF (strip_cr ''a'') = [''a'']"
    by code_simp+
  have m3: "hunkHeaderPattern ''@@ -3 +3 @@'' = Some ''3''"
    and m0: "hunkHeaderPattern ''@@ -0,0 +1 @@'' = Some ''0''"
    and m4: "hunkHeaderPattern ''@@ -4 +4 @@'' = Some ''4''"
    and m5: "hunkHeaderPattern ''@@ -5 +5 @@'' = Some ''5''"
    and mbig: "hunkHeaderPattern ''@@ -99999999999999999999,1 +1 @@''
      = Some ''99999999999999999999''"
    by code_simp+
  have l3: "split_on LF (strip_cr (join_lines [''--- a/x'', ''+++ b/x'', ''@@ -3 +3 @@'', ''+x'']))
      = [''--- a/x'', ''+++ b/x''] @ ''@@ -3 +3 @@'' # [''+x'']"
    and l0: "split_on LF (strip_cr
        (join_lines [''--- a/x'', ''+++ b/x'', ''@@ -0,0 +1 @@'', ''+x'']))
      = [''--- a/x'', ''+++ b/x''] @ ''@@ -0,0 +1 @@'' # [''+x'']"
    and l4: "split_on LF (strip_cr (join_lines [''--- a/x'', ''+++ b/x'', ''@@ -4 +4 @@'', ''+x'']))
      = [''--- a/x'', ''+++ b/x''] @ ''@@ -4 +4 @@'' # [''+x'']"
    and l5: "split_on LF (strip_cr (join_lines [''--- a/x'', ''+++ b/x'', ''@@ -5 +5 @@'', ''+x'']))
      = [''--- a/x'', ''+++ b/x''] @ ''@@ -5 +5 @@'' # [''+x'']"
    and lbig: "split_on LF (strip_cr
      (join_lines [''--- a/x'', ''+++ b/x'', ''@@ -99999999999999999999,1 +1 @@'', ''+x'']))
      = [''--- a/x'', ''+++ b/x''] @ ''@@ -99999999999999999999,1 +1 @@'' # [''+x'']"
    by code_simp+
  have body: "hunk_body src st [''+x''] = Inr (fst st @ [''x''], snd st)" for src st
    by (cases st) (simp add: hunk_line_def BACKSLASH_def)
  have joins: "join_lines [''a'', ''b'', ''x'', ''c''] = ''a'' @ LF # ''b'' @ LF # ''x'' @ LF # ''c''"
    "join_lines [''x'', ''a'', ''b'', ''c''] = ''x'' @ LF # ''a'' @ LF # ''b'' @ LF # ''c''"
    "join_lines [''a'', ''b'', ''c'', ''x''] = ''a'' @ LF # ''b'' @ LF # ''c'' @ LF # ''x''"
    by simp_all
  note ev = parseInt_def copy_rest_eq body
  from catch_up_copies_or_exceeds
    [where src = "[''a'', ''b'', ''c'']" and out = "[]" and c = 0 and s = 2
       and pre = "[''--- a/x'']" and h = "''@@ -3 +3 @@''" and ds = "''3''"
       and rest = "[''+x'']" and baseText = "[]" and diffText = "[]"]
    pre' m3
  have one: "catch_up [''a'', ''b'', ''c''] ([], 0) 2 = Inr ([''a'', ''b''], 2)
     \<and> scan_lines [''a'', ''b'', ''c''] ([], 0) [''--- a/x'', ''@@ -3 +3 @@'', ''+x'']
       = Inr ([''a'', ''b'', ''x''], 2)"
    by (simp add: ev del: hunk_body.simps scan_lines.simps)
  from catch_up_copies_or_exceeds
    [where src = "[''a'', ''b'', ''c'']" and out = "[]" and c = 0 and s = 4
       and pre = "[''--- a/x'', ''+++ b/x'']" and h = "''@@ -3 +3 @@''" and ds = "''3''"
       and rest = "[''+x'']" and baseText = "join_lines [''a'', ''b'', ''c'']"
       and diffText = "join_lines [''--- a/x'', ''+++ b/x'', ''@@ -3 +3 @@'', ''+x'']"]
    pre m3 l3 src
  have two: "catch_up [''a'', ''b'', ''c''] ([], 0) 4 = Inl HunkExceeds
     \<and> applyUnifiedDiff (join_lines [''a'', ''b'', ''c''])
        (join_lines [''--- a/x'', ''+++ b/x'', ''@@ -3 +3 @@'', ''+x''])
       = Inr (join_lines [''a'', ''b'', ''x'', ''c''])"
    by (simp add: ev del: hunk_body.simps scan_lines.simps)
  from catch_up_copies_or_exceeds
    [where src = "[]" and out = "[]" and c = 0 and s = 0
       and pre = "[''--- a/x'', ''+++ b/x'']" and h = "''@@ -0,0 +1 @@''" and ds = "''0''"
       and rest = "[''+x'']" and baseText = "join_lines [''a'', ''b'', ''c'']"
       and diffText = "join_lines [''--- a/x'', ''+++ b/x'', ''@@ -0,0 +1 @@'', ''+x'']"]
    pre m0 l0 src
  have three: "applyUnifiedDiff (join_lines [''a'', ''b'', ''c''])
        (join_lines [''--- a/x'', ''+++ b/x'', ''@@ -0,0 +1 @@'', ''+x''])
       = Inr (join_lines [''x'', ''a'', ''b'', ''c''])"
    by (simp add: ev del: hunk_body.simps scan_lines.simps)
  from catch_up_copies_or_exceeds
    [where src = "[]" and out = "[]" and c = 0 and s = 0
       and pre = "[''--- a/x'', ''+++ b/x'']" and h = "''@@ -4 +4 @@''" and ds = "''4''"
       and rest = "[''+x'']" and baseText = "join_lines [''a'', ''b'', ''c'']"
       and diffText = "join_lines [''--- a/x'', ''+++ b/x'', ''@@ -4 +4 @@'', ''+x'']"]
    pre m4 l4 src
  have four: "applyUnifiedDiff (join_lines [''a'', ''b'', ''c''])
        (join_lines [''--- a/x'', ''+++ b/x'', ''@@ -4 +4 @@'', ''+x''])
       = Inr (join_lines [''a'', ''b'', ''c'', ''x''])"
    by (simp add: ev del: hunk_body.simps scan_lines.simps)
  from catch_up_copies_or_exceeds
    [where src = "[]" and out = "[]" and c = 0 and s = 0
       and pre = "[''--- a/x'', ''+++ b/x'']" and h = "''@@ -5 +5 @@''" and ds = "''5''"
       and rest = "[''+x'']" and baseText = "join_lines [''a'', ''b'', ''c'']"
       and diffText = "join_lines [''--- a/x'', ''+++ b/x'', ''@@ -5 +5 @@'', ''+x'']"]
    pre m5 l5 src
  have five: "applyUnifiedDiff (join_lines [''a'', ''b'', ''c''])
        (join_lines [''--- a/x'', ''+++ b/x'', ''@@ -5 +5 @@'', ''+x''])
       = Inl HunkExceeds"
    by (simp add: ev del: hunk_body.simps scan_lines.simps)
  from catch_up_copies_or_exceeds
    [where src = "[]" and out = "[]" and c = 0 and s = 0
       and pre = "[''--- a/x'', ''+++ b/x'']" and h = "''@@ -99999999999999999999,1 +1 @@''"
       and ds = "''99999999999999999999''"
       and rest = "[''+x'']" and baseText = "''a''"
       and diffText = "join_lines
         [''--- a/x'', ''+++ b/x'', ''@@ -99999999999999999999,1 +1 @@'', ''+x'']"]
    pre mbig lbig src'
  have six: "applyUnifiedDiff ''a''
        (join_lines [''--- a/x'', ''+++ b/x'', ''@@ -99999999999999999999,1 +1 @@'', ''+x''])
       = Inl HunkExceeds"
    by (simp add: ev del: hunk_body.simps scan_lines.simps)
  from one two three four five six show ?thesis by blast
qed

text \<open>A diff whose first hunk starts in the source: the call is the run of its body.\<close>

lemma apply_first_hunk:
  assumes "split_on LF (strip_cr diffText) = pre @ h # rest"
    and "\<forall>l\<in>set pre. \<not> prefix ''@@ '' l" and "hunkHeaderPattern h = Some ds"
    and "startOld_of ds \<le> length (split_on LF (strip_cr baseText))"
  shows "applyUnifiedDiff baseText diffText =
     (case hunk_body (split_on LF (strip_cr baseText))
             (take (startOld_of ds) (split_on LF (strip_cr baseText)), startOld_of ds) rest of
        Inl e \<Rightarrow> Inl e
      | Inr st \<Rightarrow> Inr (join_lines (copy_rest (split_on LF (strip_cr baseText)) st)))"
proof -
  from assms(4)
  have "catch_up (split_on LF (strip_cr baseText)) ([], 0) (startOld_of ds)
      = Inr (take (startOld_of ds) (split_on LF (strip_cr baseText)), startOld_of ds)"
    by (simp add: catch_up_eq)
  then show ?thesis
    by (simp add: applyUnifiedDiff_def Let_def assms(1) scan_lines_header [OF assms(2,3)]
          del: hunk_body.simps)
qed

section \<open>applyUnifiedDiff: the lines of a hunk body\<close>

lemma is_ws_not_marker:
  assumes "is_ws c" and "c \<noteq> CHR '' ''"
  shows "c \<noteq> CHR ''@''" and "c \<noteq> CHR ''-''" and "c \<noteq> CHR ''+''" and "c \<noteq> BACKSLASH"
  using assms by (auto simp: is_ws_def BACKSLASH_def)

lemma trim_ws: "is_ws c \<Longrightarrow> trim [c] = []"
  by (simp add: trim_def)

lemma hunk_body_context:
  "hunk_body src (out, i) ((CHR '' '' # payload) # rest) =
     (if payload = source_at src i then hunk_body src (out @ [payload], i + 1) rest
      else Inl (ContextMismatch payload (source_at src i)))"
  by (simp add: hunk_line_def BACKSLASH_def)

text \<open>
  C3. A hunk-body line whose first character is the context marker \<^verbatim>\<open>' '\<close>: when its
  payload differs from the source line at the cursor, the application stops with a
  "Context mismatch" error that carries the expected and the actual text; when they are
  equal, the line is appended to the output, the cursor advances by one, and the
  application goes on with the next line. The source line at the cursor is
  \<^verbatim>\<open>sourceLines[sourceIndex] ?? ""\<close>. An error of the loop is the error of the call:
  when the mismatch is on the first body line of a first hunk that starts in the source,
  \<open>applyUnifiedDiff\<close> returns the error and no text.
\<close>

theorem context_line_checked:
  "hunk_body src (out, i) ((CHR '' '' # payload) # rest) =
     (if payload \<noteq> source_at src i then Inl (ContextMismatch payload (source_at src i))
      else hunk_body src (out @ [source_at src i], i + 1) rest)
   \<and> (split_on LF (strip_cr diffText) = pre @ h # (CHR '' '' # payload) # rest \<longrightarrow>
        (\<forall>l\<in>set pre. \<not> prefix ''@@ '' l) \<longrightarrow> hunkHeaderPattern h = Some ds \<longrightarrow>
        startOld_of ds \<le> length (split_on LF (strip_cr baseText)) \<longrightarrow>
        payload \<noteq> source_at (split_on LF (strip_cr baseText)) (startOld_of ds) \<longrightarrow>
        applyUnifiedDiff baseText diffText
          = Inl (ContextMismatch payload
                   (source_at (split_on LF (strip_cr baseText)) (startOld_of ds))))"
proof (intro conjI impI)
  show "hunk_body src (out, i) ((CHR '' '' # payload) # rest) =
     (if payload \<noteq> source_at src i then Inl (ContextMismatch payload (source_at src i))
      else hunk_body src (out @ [source_at src i], i + 1) rest)"
    unfolding hunk_body_context by simp
next
  assume h: "split_on LF (strip_cr diffText) = pre @ h # (CHR '' '' # payload) # rest"
      "\<forall>l\<in>set pre. \<not> prefix ''@@ '' l" "hunkHeaderPattern h = Some ds"
      "startOld_of ds \<le> length (split_on LF (strip_cr baseText))"
    and ne: "payload \<noteq> source_at (split_on LF (strip_cr baseText)) (startOld_of ds)"
  show "applyUnifiedDiff baseText diffText
          = Inl (ContextMismatch payload
                   (source_at (split_on LF (strip_cr baseText)) (startOld_of ds)))"
    unfolding apply_first_hunk [OF h] hunk_body_context
    using ne by simp
qed

theorem context_line_checked_witness:
  "hunk_body [''a'', ''b''] ([], 0) ['' a''] = Inr ([''a''], 1)
   \<and> hunk_body [''a'', ''b''] ([''a''], 1) ['' x''] = Inl (ContextMismatch ''x'' ''b'')
   \<and> applyUnifiedDiff (''a'' @ LF # ''b'')
        (join_lines [''--- a/f'', ''+++ b/f'', ''@@ -2 +2 @@'', '' x'', ''+y''])
       = Inl (ContextMismatch ''x'' ''b'')"
proof -
  have lines: "split_on LF (strip_cr
        (join_lines [''--- a/f'', ''+++ b/f'', ''@@ -2 +2 @@'', '' x'', ''+y'']))
      = [''--- a/f'', ''+++ b/f''] @ ''@@ -2 +2 @@'' # (CHR '' '' # ''x'') # [''+y'']"
    by code_simp
  have pre: "\<forall>l\<in>set [''--- a/f'', ''+++ b/f'']. \<not> prefix ''@@ '' l" by simp
  have m: "hunkHeaderPattern ''@@ -2 +2 @@'' = Some ''2''" by code_simp
  have src: "split_on LF (strip_cr (''a'' @ LF # ''b'')) = [''a'', ''b'']" by code_simp
  have s: "startOld_of ''2'' = 1" by (simp add: startOld_of_def parseInt_def)
  from context_line_checked
    [where src = "[''a'', ''b'']" and out = "[]" and i = 0 and payload = "''a''" and rest = "[]"
       and pre = "[]" and h = "[]" and ds = "[]" and baseText = "[]" and diffText = "[]"]
  have one: "hunk_body [''a'', ''b''] ([], 0) ['' a''] = Inr ([''a''], 1)"
    by (simp add: source_at_def)
  from context_line_checked
    [where src = "[''a'', ''b'']" and out = "[''a'']" and i = 1 and payload = "''x''"
       and rest = "[''+y'']" and pre = "[''--- a/f'', ''+++ b/f'']" and h = "''@@ -2 +2 @@''"
       and ds = "''2''" and baseText = "''a'' @ LF # ''b''"
       and diffText = "join_lines [''--- a/f'', ''+++ b/f'', ''@@ -2 +2 @@'', '' x'', ''+y'']"]
    lines pre m src s
  have two: "applyUnifiedDiff (''a'' @ LF # ''b'')
        (join_lines [''--- a/f'', ''+++ b/f'', ''@@ -2 +2 @@'', '' x'', ''+y''])
       = Inl (ContextMismatch ''x'' ''b'')"
    by (simp add: source_at_def)
  from context_line_checked
    [where src = "[''a'', ''b'']" and out = "[''a'']" and i = 1 and payload = "''x''"
       and rest = "[]" and pre = "[]" and h = "[]" and ds = "[]" and baseText = "[]"
       and diffText = "[]"]
  have three: "hunk_body [''a'', ''b''] ([''a''], 1) ['' x'']
      = Inl (ContextMismatch ''x'' ''b'')"
    by (simp add: source_at_def)
  from one two three show ?thesis by blast
qed

text \<open>
  C6, as the code has it. A completely empty line inside a hunk body is skipped: it adds
  nothing to the output and consumes no source line.
\<close>

theorem empty_hunk_line_skipped:
  "hunk_body src st ([] # rest) = hunk_body src st rest"
  by simp

theorem empty_hunk_line_skipped_witness:
  "hunk_body [''x''] ([], 0) [[], '' x''] = Inr ([''x''], 1)"
  using empty_hunk_line_skipped [of "[''x'']" "([], 0)" "['' x'']"]
  by (simp add: hunk_body_context source_at_def del: hunk_body.simps(2))

text \<open>
  The claim C6 itself says that the empty line contributes one empty line to the output.
  It fails on a hunk whose body is an empty line and a context line: the output is the
  one source line, with no empty line before it.
\<close>

theorem empty_hunk_line_counterexample:
  "hunk_body [''x''] ([], 0) [[], '' x''] \<noteq> hunk_body [''x''] ([] @ [[]], 0) ['' x'']
   \<and> applyUnifiedDiff ''x'' (join_lines [''@@ -1 +1 @@'', [], '' x'']) = Inr ''x''
   \<and> applyUnifiedDiff ''x'' (join_lines [''@@ -1 +1 @@'', [], '' x'']) \<noteq> Inr (LF # ''x'')"
  by code_simp

text \<open>
  C10. A non-empty hunk-body line whose first character is white space other than the
  space (a tab, for example) is not rejected: it appends one empty line to the output,
  the rest of the line is dropped, and no source line is consumed.
\<close>

theorem whitespace_marker_line:
  assumes "is_ws c" and "c \<noteq> CHR '' ''"
  shows "hunk_body src (out, i) ((c # content) # rest) = hunk_body src (out @ [[]], i) rest"
proof -
  note c = is_ws_not_marker [OF assms]
  then have no_header:
    "\<not> prefix ''@@ '' (c # content)" "\<not> prefix ''--- '' (c # content)"
    "\<not> prefix ''+++ '' (c # content)" "\<not> prefix (BACKSLASH # '' No newline'') (c # content)"
    by auto
  have "hunk_line src (out, i) (c # content) = Inr (out @ [[]], i)"
    using c assms by (simp add: hunk_line_def trim_ws)
  with no_header show ?thesis
    by (simp only: hunk_body.simps list.distinct if_False simp_thms sum.case)
qed

theorem whitespace_marker_line_witness:
  "is_ws TAB \<and> TAB \<noteq> CHR '' ''
   \<and> hunk_body [''x''] ([], 0) [TAB # ''dropped'', '' x''] = Inr ([[], ''x''], 1)
   \<and> applyUnifiedDiff ''x'' (join_lines [''@@ -1 +1 @@'', TAB # ''dropped'', '' x''])
       = Inr (LF # ''x'')"
proof -
  have ws: "is_ws TAB" and ns: "TAB \<noteq> CHR '' ''"
    by (simp_all add: is_ws_def TAB_def)
  have call: "applyUnifiedDiff ''x'' (join_lines [''@@ -1 +1 @@'', TAB # ''dropped'', '' x''])
       = Inr (LF # ''x'')"
    by code_simp
  from whitespace_marker_line [OF ws ns, of "[''x'']" "[]" 0 "''dropped''" "['' x'']"]
  have "hunk_body [''x''] ([], 0) [TAB # ''dropped'', '' x''] = Inr ([[], ''x''], 1)"
    by (simp add: hunk_body_context source_at_def del: hunk_body.simps(2))
  with ws ns call show ?thesis by blast
qed

text \<open>
  C8, as the code has it. With the cursor at or past the end of the source lines, a
  context line and a deletion line are compared with the empty string: a context line
  with an empty payload appends an empty line and advances the cursor, a deletion line
  with an empty payload advances the cursor, and a non-empty payload gives the mismatch
  error of its kind. The exception is a line beginning with \<^verbatim>\<open>"--- "\<close>, that is a
  \<^verbatim>\<open>'-'\<close> line whose payload begins with \<^verbatim>\<open>"-- "\<close>: it is taken as a header line,
  ends the hunk body with output and cursor as they are, and raises no error.
\<close>

theorem past_end_compares_with_empty:
  assumes "length src \<le> i"
  shows "hunk_body src (out, i) ((CHR '' '' # payload) # rest) =
           (if payload = [] then hunk_body src (out @ [[]], i + 1) rest
            else Inl (ContextMismatch payload []))
       \<and> (\<not> prefix ''--- '' (CHR ''-'' # payload) \<longrightarrow>
           hunk_body src (out, i) ((CHR ''-'' # payload) # rest) =
             (if payload = [] then hunk_body src (out, i + 1) rest
              else Inl (DeletionMismatch payload [])))
       \<and> (prefix ''--- '' (CHR ''-'' # payload) \<longrightarrow>
           hunk_body src (out, i) ((CHR ''-'' # payload) # rest) = scan_lines src (out, i) rest)"
  using assms by (auto simp: hunk_line_def BACKSLASH_def source_at_def)

theorem past_end_compares_with_empty_witness:
  "length [''a''] \<le> (1::nat)
   \<and> hunk_body [''a''] ([''a''], 1) ['' ''] = Inr ([''a'', []], 2)
   \<and> hunk_body [''a''] ([''a''], 1) ['' b''] = Inl (ContextMismatch ''b'' [])
   \<and> hunk_body [''a''] ([''a''], 1) [''-''] = Inr ([''a''], 2)
   \<and> hunk_body [''a''] ([''a''], 1) [''-b''] = Inl (DeletionMismatch ''b'' [])
   \<and> hunk_body [''a''] ([''a''], 1) [''--- x'', ''+y''] = Inr ([''a''], 1)
   \<and> applyUnifiedDiff ''a'' (join_lines [''@@ -1 +1 @@'', '' a'', '' '', ''-''])
       = Inr (''a'' @ [LF])"
proof -
  have le: "length [''a''] \<le> (1::nat)" by simp
  have call: "applyUnifiedDiff ''a'' (join_lines [''@@ -1 +1 @@'', '' a'', '' '', ''-''])
       = Inr (''a'' @ [LF])"
    by code_simp
  have hdr: "prefix ''--- '' (CHR ''-'' # ''-- x'')" by simp
  from past_end_compares_with_empty [OF le, of "[''a'']" "''-- x''" "[''+y'']"] hdr
  have three: "hunk_body [''a''] ([''a''], 1) [''--- x'', ''+y''] = Inr ([''a''], 1)"
    by (simp del: hunk_body.simps)
  from past_end_compares_with_empty [OF le, of "[''a'']" "[]" "[]"]
    past_end_compares_with_empty [OF le, of "[''a'']" "''b''" "[]"]
    call three
  show ?thesis by simp
qed

text \<open>
  The claim C8 itself says that past the end of the source every deletion line with a
  non-empty payload fails with the deletion mismatch error. It fails on the line
  \<^verbatim>\<open>"--- x"\<close>: the hunk ends there and the call returns the base text.
\<close>

theorem past_end_counterexample:
  "hunk_body [''a''] ([''a''], 1) [''--- x''] = Inr ([''a''], 1)
   \<and> hunk_body [''a''] ([''a''], 1) [''--- x''] \<noteq> Inl (DeletionMismatch ''-- x'' [])
   \<and> applyUnifiedDiff ''a'' (join_lines [''@@ -1 +1 @@'', '' a'', ''--- x'']) = Inr ''a''"
  by code_simp

section \<open>applyUnifiedDiff: diffs that change nothing\<close>

text \<open>
  C9, as the code has it. When the diff, once its carriage returns are removed, has no
  line beginning with \<^verbatim>\<open>"@@ "\<close>, \<open>applyUnifiedDiff\<close> returns the base text with its
  carriage returns removed; for a diff without carriage returns these are the lines of
  the diff text itself. More generally the lines before a hunk header, none of which
  begins with \<^verbatim>\<open>"@@ "\<close>, leave the state of the application as it was.
\<close>

theorem no_hunk_header_returns_base:
  "((\<forall>l\<in>set (split_on LF (strip_cr diffText)). \<not> prefix ''@@ '' l) \<longrightarrow>
      applyUnifiedDiff baseText diffText = Inr (strip_cr baseText))
   \<and> (CR \<notin> set diffText \<longrightarrow> (\<forall>l\<in>set (split_on LF diffText). \<not> prefix ''@@ '' l) \<longrightarrow>
      applyUnifiedDiff baseText diffText = Inr (strip_cr baseText))
   \<and> ((\<forall>l\<in>set pre. \<not> prefix ''@@ '' l) \<longrightarrow>
      scan_lines src st (pre @ rest) = scan_lines src st rest)"
proof -
  have main: "applyUnifiedDiff baseText diffText = Inr (strip_cr baseText)"
    if none: "\<forall>l\<in>set (split_on LF (strip_cr diffText)). \<not> prefix ''@@ '' l"
  proof -
    have "scan_lines sl st' (split_on LF (strip_cr diffText)) = Inr st'" for sl st'
      using scan_lines_skip [OF none, of sl st' "[]"] by simp
    then show ?thesis
      by (simp add: applyUnifiedDiff_def copy_rest_eq join_split_on)
  qed
  have raw: "applyUnifiedDiff baseText diffText = Inr (strip_cr baseText)"
    if "CR \<notin> set diffText" and "\<forall>l\<in>set (split_on LF diffText). \<not> prefix ''@@ '' l"
    using that main by (simp add: strip_cr_idem)
  have skip: "scan_lines src st (pre @ rest) = scan_lines src st rest"
    if "\<forall>l\<in>set pre. \<not> prefix ''@@ '' l"
    using that by (rule scan_lines_skip)
  from main raw skip show ?thesis by blast
qed

theorem no_hunk_header_returns_base_witness:
  "applyUnifiedDiff (''a'' @ [CR, LF] @ ''b'')
        (join_lines [''diff --git a/x b/x'' @ [CR], ''--- a/x'' @ [CR], ''+++ b/x''])
       = Inr (''a'' @ [LF] @ ''b'')
   \<and> applyUnifiedDiff ''a'' [] = Inr ''a''
   \<and> scan_lines [''a''] ([], 0) ([''--- a/x'', ''+++ b/x''] @ [''@@ -1 +1 @@'', ''-a''])
       = scan_lines [''a''] ([], 0) [''@@ -1 +1 @@'', ''-a'']"
proof -
  have none: "\<forall>l\<in>set (split_on LF (strip_cr
        (join_lines [''diff --git a/x b/x'' @ [CR], ''--- a/x'' @ [CR], ''+++ b/x'']))).
      \<not> prefix ''@@ '' l"
    by code_simp
  have none': "\<forall>l\<in>set (split_on LF (strip_cr [])). \<not> prefix ''@@ '' l"
    by code_simp
  have pre: "\<forall>l\<in>set [''--- a/x'', ''+++ b/x'']. \<not> prefix ''@@ '' l"
    by simp
  have base: "strip_cr (''a'' @ [CR, LF] @ ''b'') = ''a'' @ [LF] @ ''b''"
    by code_simp
  have base': "strip_cr ''a'' = ''a''"
    by code_simp
  from no_hunk_header_returns_base
    [where diffText = "join_lines [''diff --git a/x b/x'' @ [CR], ''--- a/x'' @ [CR], ''+++ b/x'']"
       and baseText = "''a'' @ [CR, LF] @ ''b''" and pre = "[]" and rest = "[]"]
    none base
  have one: "applyUnifiedDiff (''a'' @ [CR, LF] @ ''b'')
        (join_lines [''diff --git a/x b/x'' @ [CR], ''--- a/x'' @ [CR], ''+++ b/x''])
       = Inr (''a'' @ [LF] @ ''b'')"
    by simp
  from no_hunk_header_returns_base
    [where diffText = "[]" and baseText = "''a''"
       and pre = "[''--- a/x'', ''+++ b/x'']" and rest = "[''@@ -1 +1 @@'', ''-a'']"
       and src = "[''a'']" and st = "([], 0)"]
    none' base' pre
  have two: "applyUnifiedDiff ''a'' [] = Inr ''a''
     \<and> scan_lines [''a''] ([], 0) ([''--- a/x'', ''+++ b/x''] @ [''@@ -1 +1 @@'', ''-a''])
       = scan_lines [''a''] ([], 0) [''@@ -1 +1 @@'', ''-a'']"
    by simp
  from one two show ?thesis by blast
qed

text \<open>
  The claim C9 itself speaks of the lines of the diff text. It fails on a diff whose
  first line has a carriage return inside the \<^verbatim>\<open>"@@ "\<close> mark: no line of the text
  begins with \<^verbatim>\<open>"@@ "\<close>, yet the hunk is applied and the base line is deleted.
\<close>

theorem no_hunk_header_counterexample:
  "\<not> (\<exists>l\<in>set (split_on LF (''@'' @ [CR] @ ''@ -1 +1 @@'' @ [LF] @ ''-a'')). prefix ''@@ '' l)
   \<and> applyUnifiedDiff ''a'' (''@'' @ [CR] @ ''@ -1 +1 @@'' @ [LF] @ ''-a'') = Inr []
   \<and> applyUnifiedDiff ''a'' (''@'' @ [CR] @ ''@ -1 +1 @@'' @ [LF] @ ''-a'')
       \<noteq> Inr (strip_cr ''a'')"
  by code_simp

lemma context_lines_apply:
  "src = pre @ post \<Longrightarrow>
   hunk_body src (out, length pre) (map ((#) (CHR '' '')) post) = Inr (out @ post, length src)"
proof (induction post arbitrary: pre out)
  case Nil
  then show ?case by simp
next
  case (Cons l post)
  then have "src = (pre @ [l]) @ post" by simp
  from Cons.IH [OF this, of "out @ [l]"] Cons.prems
  show ?case by (simp add: hunk_body_context source_at_def del: hunk_body.simps)
qed

text \<open>
  C5, as the code has it. For every text \<open>T\<close> and a diff made of a valid hunk header
  starting at line 1 followed by every line of \<open>T\<close> (after the removal of carriage
  returns) prefixed with the context marker, \<open>applyUnifiedDiff\<close> returns \<open>T\<close> with its
  carriage returns removed; that is \<open>T\<close> itself when \<open>T\<close> has no carriage return.
\<close>

theorem identity_diff_returns_normalized:
  assumes "LF \<notin> set h" and "hunkHeaderPattern (strip_cr h) = Some ds" and "parseInt ds = 1"
  shows "applyUnifiedDiff T (join_lines (h # map ((#) (CHR '' '')) (split_on LF (strip_cr T))))
           = Inr (strip_cr T)
       \<and> (CR \<notin> set T \<longrightarrow>
           applyUnifiedDiff T (join_lines (h # map ((#) (CHR '' '')) (split_on LF T))) = Inr T)"
proof -
  let ?src = "split_on LF (strip_cr T)"
  let ?body = "map ((#) (CHR '' '')) ?src"
  have ne: "?body \<noteq> []" by (simp add: split_on_not_Nil)
  have nolf: "\<forall>l\<in>set ?body. LF \<notin> set l"
    using split_on_line_no_sep [of _ LF "strip_cr T"] by (auto simp: LF_def)
  have nocr: "\<forall>l\<in>set ?body. strip_cr l = l"
  proof
    fix l assume "l \<in> set ?body"
    then obtain l' where l': "l' \<in> set ?src" "l = CHR '' '' # l'" by auto
    from l'(1) have "CR \<notin> set l'" by (rule line_of_stripped_no_cr)
    moreover have "CR \<noteq> CHR '' ''" by (simp add: CR_def)
    ultimately have "CR \<notin> set l" using l' by simp
    then show "strip_cr l = l" by (rule strip_cr_idem)
  qed
  have "strip_cr (join_lines ?body) = join_lines ?body"
    using nocr by (simp add: strip_cr_join cong: map_cong)
  then have lines: "split_on LF (strip_cr (join_lines (h # ?body))) = strip_cr h # ?body"
    using ne nolf
    by (simp add: join_lines_Cons split_on_strip_cr_Cons [OF assms(1)] split_on_join)
  from assms(2) have p: "prefix ''@@ '' (strip_cr h)" "strip_cr h \<noteq> []"
    using hunkHeaderPattern_prefix by blast+
  have s0: "startOld_of ds = 0" using assms(3) by (simp add: startOld_of_def)
  have body: "hunk_body ?src ([], 0) ?body = Inr (?src, length ?src)"
    using context_lines_apply [of ?src "[]" ?src "[]"] by simp
  have main: "applyUnifiedDiff T (join_lines (h # ?body)) = Inr (strip_cr T)"
    unfolding applyUnifiedDiff_def Let_def lines
    using p assms(2) s0 body
    by (simp add: catch_up_eq copy_rest_eq join_split_on del: hunk_body.simps)
  then show ?thesis by (auto simp: strip_cr_idem)
qed

theorem identity_diff_returns_normalized_witness:
  "LF \<notin> set ''@@ -1,2 +1,2 @@''
   \<and> hunkHeaderPattern (strip_cr ''@@ -1,2 +1,2 @@'') = Some ''1''
   \<and> parseInt ''1'' = 1
   \<and> applyUnifiedDiff (''a'' @ [CR, LF] @ ''b'')
        (join_lines (''@@ -1,2 +1,2 @@''
           # map ((#) (CHR '' '')) (split_on LF (strip_cr (''a'' @ [CR, LF] @ ''b'')))))
       = Inr (''a'' @ [LF] @ ''b'')"
proof -
  have h1: "LF \<notin> set ''@@ -1,2 +1,2 @@''" by (simp add: LF_def)
  have h2: "hunkHeaderPattern (strip_cr ''@@ -1,2 +1,2 @@'') = Some ''1''" by code_simp
  have h3: "parseInt ''1'' = 1" by (simp add: parseInt_def)
  have base: "strip_cr (''a'' @ [CR, LF] @ ''b'') = ''a'' @ [LF] @ ''b''" by code_simp
  from identity_diff_returns_normalized [OF h1 h2 h3, of "''a'' @ [CR, LF] @ ''b''"]
  have "applyUnifiedDiff (''a'' @ [CR, LF] @ ''b'')
        (join_lines (''@@ -1,2 +1,2 @@''
           # map ((#) (CHR '' '')) (split_on LF (strip_cr (''a'' @ [CR, LF] @ ''b'')))))
       = Inr (strip_cr (''a'' @ [CR, LF] @ ''b''))"
    by blast
  with h1 h2 h3 base show ?thesis by simp
qed

text \<open>
  The claim C5 itself says that the text comes back unchanged. It fails on a text with a
  carriage return: the result has lost it.
\<close>

theorem identity_diff_counterexample:
  "applyUnifiedDiff (''a'' @ [CR, LF] @ ''b'')
     (join_lines (''@@ -1,2 +1,2 @@''
        # map ((#) (CHR '' '')) (split_on LF (strip_cr (''a'' @ [CR, LF] @ ''b'')))))
     \<noteq> Inr (''a'' @ [CR, LF] @ ''b'')"
  by code_simp

section \<open>The scenarios of the specification\<close>

text \<open>
  The model run on the concrete scenarios that the specification lists. In the first, the
  diff ends with a line feed: its last line is empty and adds nothing to the result.
\<close>

lemma scenario_new_line:
  "applyUnifiedDiff (''old line'' @ [LF])
     (join_lines [''@@ -1 +1 @@'', ''-old line'', ''+new line'', []])
     = Inr (''new line'' @ [LF])"
  by code_simp

lemma scenario_rename:
  "applyUnifiedDiff (join_lines [''alpha'', ''beta'', []])
     (join_lines [''--- a/old-name.txt'', ''+++ b/renamed/name.txt'', ''@@ -1,2 +1,2 @@'',
        ''-alpha'', ''+alpha-renamed'', '' beta'', []])
     = Inr (join_lines [''alpha-renamed'', ''beta'', []])
   \<and> map (\<lambda>p. (oldPath p, newPath p))
        (splitUnifiedDiffByFile
          (join_lines [''--- a/old-name.txt'', ''+++ b/renamed/name.txt'', ''@@ -1,2 +1,2 @@'',
             ''-alpha'', ''+alpha-renamed'', '' beta'', []]))
     = [(Some ''old-name.txt'', Some ''renamed/name.txt'')]"
  by code_simp

lemma scenario_delete:
  "sanitizePatchTargets (join_lines [''--- a/x.txt'', ''+++ /dev/null'']) (Many [''x.txt''])
     = Inr ()
   \<and> map newPath (splitUnifiedDiffByFile (join_lines [''--- a/x.txt'', ''+++ /dev/null'']))
     = [None]"
  by code_simp

end
